theory Spec2Isabelle
  imports Complex_Main "HOL-Library.Multiset"
begin

section \<open>Python and array-library values\<close>

text \<open>
  The notebooks are Python over JAX, the Python \<open>random\<close> module and the TensorFlow
  dataset utilities. Integers are Python's unbounded integers (\<open>int\<close>), array entries are
  taken as real numbers (the arithmetic of the generator is exact here: rounding, infinities
  and NaN of 32-bit floats are outside this development), a 2-D array is the list of its
  rows, and every exception of the source is a value of \<open>py_error\<close>:
  \<open>IndexError\<close>, \<open>ValueError\<close>, \<open>OverflowError\<close> and \<open>FileNotFoundError\<close>
  are Python's, \<open>ShapeError\<close> stands for the exception with which JAX refuses an
  impossible shape (a dimension that is negative or does not fit 64 bits, a product of
  matrices whose inner dimensions differ), \<open>InvalidArgumentError\<close> is the dataset
  utility's. Running out of memory is not an exception of this development.
\<close>

datatype py_error =
  IndexError | ValueError | OverflowError | FileNotFoundError | ShapeError | InvalidArgumentError

text \<open>
  \<open>range(start, stop, step)\<close> for a non-zero step. A zero step raises \<open>ValueError\<close>
  in Python; the one caller that can pass it, \<open>get_dataloader\<close>, tests for it first.
\<close>

function py_range :: "int \<Rightarrow> int \<Rightarrow> int \<Rightarrow> int list" where
  "py_range start stop step =
     (if (0 < step \<and> start < stop) \<or> (step < 0 \<and> stop < start)
      then start # py_range (start + step) stop step
      else [])"
  by pat_completeness auto
termination
  by (relation "measure (\<lambda>(start, stop, step).
        nat (if 0 < step then stop - start else start - stop))") auto

declare py_range.simps [simp del]

text \<open>
  A slice \<open>slice(start, stop)\<close> of step one; \<open>stop = None\<close> runs to the end. Python
  counts a negative bound from the end and clips both bounds to the length.
\<close>

datatype py_slice = Slice int "int option"

definition slice_bound :: "nat \<Rightarrow> int \<Rightarrow> nat" where
  "slice_bound n i = (if i < 0 then nat (int n + i) else min (nat i) n)"

fun getitem_slice :: "'a list \<Rightarrow> py_slice \<Rightarrow> 'a list" where
  "getitem_slice a (Slice start stop) =
     (let lo = slice_bound (length a) start;
          hi = (case stop of None \<Rightarrow> length a | Some s \<Rightarrow> slice_bound (length a) s)
      in take (hi - lo) (drop lo a))"

text \<open>
  \<open>a[idx]\<close> for a JAX array \<open>a\<close> and an integer index array \<open>idx\<close>: one row per index.
  JAX counts a negative index from the end and clamps an index that is still out of range;
  an axis of size zero cannot be indexed (\<open>IndexError\<close>). The loaders below only pass
  indices that are in range for a dataset whose arrays have the advertised length.
\<close>

definition jnp_index :: "nat \<Rightarrow> int \<Rightarrow> nat" where
  "jnp_index n i = nat (max 0 (min (int n - 1) (if i < 0 then i + int n else i)))"

definition jnp_getitem :: "'a list \<Rightarrow> int list \<Rightarrow> py_error + 'a list" where
  "jnp_getitem a idx =
     (if a = [] then Inl IndexError
      else Inr (map (\<lambda>i. a ! jnp_index (length a) i) idx))"

text \<open>
  \<open>jnp.array(xs)\<close> for a list of Python integers: the array has 32-bit integer entries,
  and an integer outside \<open>[-2^31, 2^31)\<close> raises \<open>OverflowError\<close>. The loop of the
  manual loader never converts an empty list: every start position lies inside the list.
\<close>

definition jnp_array :: "int list \<Rightarrow> py_error + int list" where
  "jnp_array xs =
     (if list_all (\<lambda>i. - 2147483648 \<le> i \<and> i < 2147483648) xs then Inr xs
      else Inl OverflowError)"

subsection \<open>The Python random generator\<close>

text \<open>
  The state of Python's global generator is a value of an arbitrary type \<open>'g\<close>; the
  generator itself is a parameter \<open>rb\<close>, the function that produces the next integer for
  a requested bound together with the next state. \<open>randbelow\<close> is the generator's
  \<open>_randbelow(k)\<close>, whose result lies in \<open>[0, k)\<close>. \<open>random_shuffle\<close> is
  \<open>random.shuffle\<close>: for \<open>i\<close> from \<open>len(x) - 1\<close> down to \<open>1\<close> it draws
  \<open>j = randbelow(i + 1)\<close> and exchanges \<open>x[i]\<close> and \<open>x[j]\<close>.
\<close>

type_synonym 'g rng = "'g \<Rightarrow> nat \<Rightarrow> nat \<times> 'g"

definition randbelow :: "'g rng \<Rightarrow> 'g \<Rightarrow> nat \<Rightarrow> nat \<times> 'g" where
  "randbelow rb g k = (fst (rb g k) mod k, snd (rb g k))"

fun shuffle_steps :: "'g rng \<Rightarrow> nat \<Rightarrow> 'a list \<Rightarrow> 'g \<Rightarrow> 'a list \<times> 'g" where
  "shuffle_steps rb 0 x g = (x, g)"
| "shuffle_steps rb (Suc k) x g =
     (let (j, g') = randbelow rb g (Suc k + 1)
      in shuffle_steps rb k (x[Suc k := x ! j, j := x ! Suc k]) g')"

definition random_shuffle :: "'g rng \<Rightarrow> 'a list \<Rightarrow> 'g \<Rightarrow> 'a list \<times> 'g" where
  "random_shuffle rb x g = shuffle_steps rb (length x - 1) x g"



subsection \<open>The JAX random keys\<close>

text \<open>
  A JAX key is a value; \<open>jax.random.split\<close> derives two new keys from one, and
  \<open>jax.random.normal(key, shape)\<close> is a function of the key and the shape alone. Keys
  are kept symbolic, and the sampler \<open>smp\<close> (the entry at row \<open>i\<close>, column \<open>j\<close> of
  the array drawn for a key and a shape) is a parameter. A dimension of an array is
  a non-negative integer that fits 64 bits (\<open>bad_dim\<close> says that an integer is not):
  any other shape is refused.
\<close>

definition bad_dim :: "int \<Rightarrow> bool" where
  "bad_dim k = (k < 0 \<or> 9223372036854775808 \<le> k)"

datatype prng_key = PRNGKey int | Split prng_key nat

definition jax_random_split :: "prng_key \<Rightarrow> prng_key \<times> prng_key" where
  "jax_random_split key = (Split key 0, Split key 1)"

type_synonym sampler = "prng_key \<Rightarrow> nat \<times> nat \<Rightarrow> nat \<Rightarrow> nat \<Rightarrow> real"

definition jax_random_normal ::
  "sampler \<Rightarrow> prng_key \<Rightarrow> int \<times> int \<Rightarrow> py_error + real list list" where
  "jax_random_normal smp key shp =
     (case shp of (r, c) \<Rightarrow>
        if bad_dim r \<or> bad_dim c then Inl ShapeError
        else Inr (map (\<lambda>i. map (\<lambda>j. smp key (nat r, nat c) i j) [0..<nat c]) [0..<nat r]))"

section \<open>The synthetic regression data\<close>

text \<open>
  The weight argument \<open>w\<close> is an array of any rank: its shape and its entries in row-major
  order. \<open>w.shape[0]\<close> raises \<open>IndexError\<close> for a rank-0 array, and
  \<open>w.reshape((-1, 1))\<close> is the column of all entries of \<open>w\<close>.
\<close>

datatype tensor = Tensor (shape: "nat list") (elems: "real list")

text \<open>
  \<open>jnp.matmul(X, w.reshape((-1, 1)))\<close> for \<open>X\<close> of shape \<open>(n, d)\<close>: the shapes are
  checked first (also when \<open>n = 0\<close>), then every row is multiplied with the column.
\<close>

definition dot :: "real list \<Rightarrow> real list \<Rightarrow> real" where
  "dot u v = sum_list (map2 (*) u v)"

definition matmul_col :: "nat \<Rightarrow> real list list \<Rightarrow> tensor \<Rightarrow> py_error + real list list" where
  "matmul_col d X w =
     (if d \<noteq> prod_list (shape w) then Inl ShapeError
      else Inr (map (\<lambda>row. [dot row (elems w)]) X))"

record SyntheticRegressionData =
  self_w :: tensor
  self_b :: real
  self_noise :: real
  num_train :: int
  num_val :: int
  batch_size :: int
  self_X :: "real list list"
  self_y :: "real list list"

text \<open>
  \<open>SyntheticRegressionData.__init__(w, b, noise, num_train, num_val, batch_size)\<close>.
  The constructor runs in a state \<open>g\<close> of the global Python generator, which it returns
  as it found it. The result is the constructed object or the exception raised.
\<close>

definition init ::
  "sampler \<Rightarrow> tensor \<Rightarrow> real \<Rightarrow> real \<Rightarrow> int \<Rightarrow> int \<Rightarrow> int \<Rightarrow> 'g
     \<Rightarrow> (py_error + SyntheticRegressionData) \<times> 'g" where
  "init smp w b noise n_train n_val bsize g =
     (let n = n_train + n_val;
          key = PRNGKey 0;
          (key1, key2) = jax_random_split key;
          result =
            (case shape w of
               [] \<Rightarrow> Inl IndexError
             | d # _ \<Rightarrow>
                (case jax_random_normal smp key1 (n, int d) of
                   Inl e \<Rightarrow> Inl e
                 | Inr X \<Rightarrow>
                    (case jax_random_normal smp key2 (n, 1) of
                       Inl e \<Rightarrow> Inl e
                     | Inr eps \<Rightarrow>
                        (let noise' = map (map (\<lambda>v. v * noise)) eps
                         in case matmul_col d X w of
                              Inl e \<Rightarrow> Inl e
                            | Inr Xw \<Rightarrow>
                                Inr \<lparr> self_w = w, self_b = b, self_noise = noise,
                                      num_train = n_train, num_val = n_val,
                                      batch_size = bsize, self_X = X,
                                      self_y = map2 (map2 (\<lambda>v e. v + b + e)) Xw noise' \<rparr>))))
      in (result, g))"

section \<open>The manual data loader\<close>

text \<open>
  A batch is the pair of the feature rows and the label rows. \<open>collect_batches\<close> is
  the loop \<open>for i in range(0, len(indices), batch_size)\<close> over its start positions:
  the chunk of indices is converted with \<open>jnp.array\<close>, then both arrays are indexed
  with it. A pass that raises is recorded as the exception.
\<close>

type_synonym batch = "real list list \<times> real list list"

fun collect_batches ::
  "SyntheticRegressionData \<Rightarrow> int list \<Rightarrow> int list \<Rightarrow> py_error + batch list" where
  "collect_batches self indices [] = Inr []"
| "collect_batches self indices (i # starts) =
     (case jnp_array (getitem_slice indices (Slice i (Some (i + batch_size self)))) of
        Inl e \<Rightarrow> Inl e
      | Inr batch_indices \<Rightarrow>
         (case jnp_getitem (self_X self) batch_indices of
            Inl e \<Rightarrow> Inl e
          | Inr Xb \<Rightarrow>
             (case jnp_getitem (self_y self) batch_indices of
                Inl e \<Rightarrow> Inl e
              | Inr yb \<Rightarrow>
                 (case collect_batches self indices starts of
                    Inl e \<Rightarrow> Inl e
                  | Inr rest \<Rightarrow> Inr ((Xb, yb) # rest)))))"

definition loader_indices ::
  "'g rng \<Rightarrow> SyntheticRegressionData \<Rightarrow> bool \<Rightarrow> 'g \<Rightarrow> int list \<times> 'g" where
  "loader_indices rb self train g =
     (if train then random_shuffle rb (py_range 0 (num_train self) 1) g
      else (py_range (num_train self) (num_train self + num_val self) 1, g))"

definition get_dataloader ::
  "'g rng \<Rightarrow> SyntheticRegressionData \<Rightarrow> bool \<Rightarrow> 'g \<Rightarrow> (py_error + batch list) \<times> 'g" where
  "get_dataloader rb self train g =
     (let (indices, g') = loader_indices rb self train g
      in if batch_size self = 0 then (Inl ValueError, g')
         else (collect_batches self indices
                 (py_range 0 (int (length indices)) (batch_size self)), g'))"

section \<open>The library-backed data loader\<close>

text \<open>
  \<open>chunks b xs\<close> cuts \<open>xs\<close> into consecutive groups of \<open>b\<close> elements; the last group
  holds what is left. It is the dataset utility's \<open>batch(b)\<close> (which keeps the remainder)
  and the reference against which the loop of the manual loader is compared.
\<close>

function chunks :: "nat \<Rightarrow> 'a list \<Rightarrow> 'a list list" where
  "chunks b xs = (if b = 0 \<or> xs = [] then [] else take b xs # chunks b (drop b xs))"
  by pat_completeness auto
termination
  by (relation "measure (\<lambda>(b, xs). length xs)") auto

declare chunks.simps [simp del]

text \<open>
  \<open>shuffle(buffer_size)\<close> of the dataset utility: a buffer is filled with the first
  \<open>buffer_size\<close> elements; each output is an element drawn at random from the buffer,
  whose place the next input element takes; when the input is used up the buffer is
  drained in random order. The draws come from a generator \<open>rb\<close> in state \<open>g\<close>, as for
  \<open>random_shuffle\<close>. Which slot of the buffer an element occupies is internal to the
  utility; here the buffer is kept in arrival order.
\<close>

fun tf_drain :: "'g rng \<Rightarrow> nat \<Rightarrow> 'a list \<Rightarrow> 'g \<Rightarrow> 'a list \<times> 'g" where
  "tf_drain rb 0 buf g = ([], g)"
| "tf_drain rb (Suc n) buf g =
     (let (j, g') = randbelow rb g (length buf);
          (out, g'') = tf_drain rb n (take j buf @ drop (Suc j) buf) g'
      in (buf ! j # out, g''))"

fun tf_refill :: "'g rng \<Rightarrow> 'a list \<Rightarrow> 'a list \<Rightarrow> 'g \<Rightarrow> 'a list \<times> 'g" where
  "tf_refill rb buf [] g = tf_drain rb (length buf) buf g"
| "tf_refill rb buf (r # rest) g =
     (let (j, g') = randbelow rb g (length buf);
          (out, g'') = tf_refill rb (buf[j := r]) rest g'
      in (buf ! j # out, g''))"

definition tf_shuffle :: "'g rng \<Rightarrow> nat \<Rightarrow> 'a list \<Rightarrow> 'g \<Rightarrow> 'a list \<times> 'g" where
  "tf_shuffle rb buffer xs g = tf_refill rb (take buffer xs) (drop buffer xs) g"

text \<open>
  The loader object \<open>from_tensor_slices(tensors).shuffle(buffer_size).batch(batch_size)\<close>
  for the pair of tensors that the one caller passes: its elements are the pairs of a
  feature row and a label row. When the object is built the utility refuses tensors of
  different length (\<open>from_tensor_slices\<close>), a shuffle buffer of size zero
  (\<open>shuffle\<close>), and in \<open>batch\<close> a batch size that does not fit a signed 64-bit
  integer (\<open>ValueError\<close>) or is below one.
\<close>

record tf_loader =
  elements :: "(real list \<times> real list) list"
  shuffle_buffer :: nat
  loader_batch :: nat

definition tf_pipeline ::
  "real list list \<times> real list list \<Rightarrow> nat \<Rightarrow> int \<Rightarrow> py_error + tf_loader" where
  "tf_pipeline tensors buffer bsize =
     (if length (fst tensors) \<noteq> length (snd tensors) then Inl ValueError
      else if buffer = 0 then Inl InvalidArgumentError
      else if bsize < - 9223372036854775808 \<or> 9223372036854775808 \<le> bsize then Inl ValueError
      else if bsize < 1 then Inl InvalidArgumentError
      else Inr \<lparr> elements = zip (fst tensors) (snd tensors),
                 shuffle_buffer = buffer, loader_batch = nat bsize \<rparr>)"

definition get_tensorloader ::
  "SyntheticRegressionData \<Rightarrow> real list list \<times> real list list \<Rightarrow> bool \<Rightarrow> py_slice
     \<Rightarrow> py_error + tf_loader" where
  "get_tensorloader self tensors train indices =
     (let tensors' = (getitem_slice (fst tensors) indices, getitem_slice (snd tensors) indices);
          buffer = (if train then length (fst tensors') else 1)
      in tf_pipeline tensors' buffer (batch_size self))"

text \<open>
  The second \<open>get_dataloader\<close> of the notebook (the concise implementation), which
  replaces the manual one on the class.
\<close>

definition get_dataloader_concise ::
  "SyntheticRegressionData \<Rightarrow> bool \<Rightarrow> py_error + tf_loader" where
  "get_dataloader_concise self train =
     (let i = (if train then Slice 0 (Some (num_train self)) else Slice (num_train self) None)
      in get_tensorloader self (self_X self, self_y self) train i)"

text \<open>
  One pass over the loader, and its \<open>len\<close>: the utility computes the number of batches
  from the number of elements and the batch size, without iterating.
\<close>

definition loader_iter :: "'g rng \<Rightarrow> tf_loader \<Rightarrow> 'g \<Rightarrow> batch list \<times> 'g" where
  "loader_iter rb l g =
     (let (shuffled, g') = tf_shuffle rb (shuffle_buffer l) (elements l) g
      in (map (\<lambda>c. (map fst c, map snd c)) (chunks (loader_batch l) shuffled), g'))"

definition loader_len :: "tf_loader \<Rightarrow> nat" where
  "loader_len l =
     length (elements l) div loader_batch l
       + (if length (elements l) mod loader_batch l = 0 then 0 else 1)"

section \<open>Saving and loading a mapping\<close>

text \<open>
  Modelled from the spec: \<open>jnp.save\<close> and \<open>jnp.load\<close>, which the notebook on file
  input and output calls and whose code is the array library's, not the repository's. The
  spec treats them as an opaque save and load of a mapping from string names to arrays; the
  output recorded in the notebook and the documentation of the library add the rest.
  The value handed to \<open>save\<close> is first made an array: an array stays what it is, and
  any other value, such as a mapping, becomes a zero-dimensional array of objects that
  holds this one value. \<open>save\<close> appends \<open>.npy\<close> to a file name that does not end in
  it. \<open>load\<close> raises \<open>FileNotFoundError\<close> when there is no such file and
  \<open>ValueError\<close> for an array of objects unless pickling is allowed; otherwise it returns
  the stored array. Persistent storage is a map from file names to stored arrays, and a
  mapping is the list of its items.
\<close>

datatype py_value =
  ArrayV tensor | DictV "(string \<times> tensor) list" | ObjectArray0 py_value

type_synonym storage = "string \<rightharpoonup> py_value"

definition np_asanyarray :: "py_value \<Rightarrow> py_value" where
  "np_asanyarray v = (case v of DictV m \<Rightarrow> ObjectArray0 (DictV m) | _ \<Rightarrow> v)"

definition npy_name :: "string \<Rightarrow> string" where
  "npy_name file = (if drop (length file - 4) file = ''.npy'' then file else file @ ''.npy'')"

definition jnp_save :: "storage \<Rightarrow> string \<Rightarrow> py_value \<Rightarrow> storage" where
  "jnp_save fs file obj = fs(npy_name file \<mapsto> np_asanyarray obj)"

definition jnp_load :: "storage \<Rightarrow> string \<Rightarrow> bool \<Rightarrow> py_error + py_value" where
  "jnp_load fs file allow_pickle =
     (case fs file of
        None \<Rightarrow> Inl FileNotFoundError
      | Some (ObjectArray0 v) \<Rightarrow>
          if allow_pickle then Inr (ObjectArray0 v) else Inl ValueError
      | Some v \<Rightarrow> Inr v)"

section \<open>Notions used in the statements\<close>

text \<open>
  The shape of a dataset as the constructor leaves it: as many feature rows as label
  rows, \<open>num_train + num_val\<close> of them, and no negative count.
\<close>

definition wf_data :: "SyntheticRegressionData \<Rightarrow> bool" where
  "wf_data self =
     (0 \<le> num_train self \<and> 0 \<le> num_val self
      \<and> int (length (self_X self)) = num_train self + num_val self
      \<and> length (self_y self) = length (self_X self))"

text \<open>The rows of an array at a list of indices that are in range.\<close>

definition rows_at :: "'a list \<Rightarrow> int list \<Rightarrow> 'a list" where
  "rows_at a idx = map (\<lambda>i. a ! nat i) idx"

text \<open>
  The size of a batch is its number of feature rows. \<open>chunk_sizes n b\<close> are the sizes
  of the groups when \<open>n\<close> examples are cut into groups of \<open>b\<close>: full groups, then the
  remainder if there is one.
\<close>

definition batch_sizes :: "batch list \<Rightarrow> nat list" where
  "batch_sizes bt = map (\<lambda>xy. length (fst xy)) bt"

definition chunk_sizes :: "nat \<Rightarrow> nat \<Rightarrow> nat list" where
  "chunk_sizes n b = replicate (n div b) b @ (if n mod b = 0 then [] else [n mod b])"

text \<open>
  A batch keeps the pairing of the dataset when its \<open>k\<close>-th feature row and its
  \<open>k\<close>-th label row are, for every \<open>k\<close>, the feature row and the label row of one
  example of the dataset.
\<close>

definition paired :: "SyntheticRegressionData \<Rightarrow> batch \<Rightarrow> bool" where
  "paired self xy =
     list_all2 (\<lambda>xr yr. (xr, yr) \<in> set (zip (self_X self) (self_y self))) (fst xy) (snd xy)"


subsection \<open>Concrete values for the examples\<close>

text \<open>
  A sampler and a generator that can be evaluated, the weights and bias of the notebook,
  and a small dataset of three training and two validation examples.
\<close>

definition example_smp :: sampler where
  "example_smp key shp i j = (case key of PRNGKey s \<Rightarrow> 0 | Split k n \<Rightarrow> real (i + 2 * j + n))"

definition example_rb :: "nat rng" where
  "example_rb g k = (g, Suc g)"

definition example_w :: tensor where
  "example_w = Tensor [2] [2, - 34 / 10]"

definition example_data :: SyntheticRegressionData where
  "example_data =
     \<lparr> self_w = example_w, self_b = 42 / 10, self_noise = 0,
       num_train = 3, num_val = 2, batch_size = 2,
       self_X = [[0, 2], [1, 3], [2, 4], [3, 5], [4, 6]],
       self_y = [[- 26 / 10], [- 4], [- 54 / 10], [- 68 / 10], [- 82 / 10]] \<rparr>"

text \<open>
  Two datasets of the advertised shape at the edges: one of \<open>2^31 + 1\<close> examples,
  whose last index does not fit a 32-bit index array, and one without training examples.
\<close>

definition big_data :: SyntheticRegressionData where
  "big_data =
     \<lparr> self_w = example_w, self_b = 42 / 10, self_noise = 0,
       num_train = 2147483648, num_val = 1, batch_size = 32,
       self_X = replicate 2147483649 [0, 0],
       self_y = replicate 2147483649 [0] \<rparr>"

definition empty_train_data :: SyntheticRegressionData where
  "empty_train_data =
     \<lparr> self_w = example_w, self_b = 42 / 10, self_noise = 0,
       num_train = 0, num_val = 2, batch_size = 2,
       self_X = [[3, 5], [4, 6]],
       self_y = [[- 68 / 10], [- 82 / 10]] \<rparr>"

section \<open>Ranges, slices and chunks\<close>

lemma py_range_unit: "py_range a b 1 = [a..b - 1]"
proof (induction a b "1::int" rule: py_range.induct)
  case (1 start stop)
  show ?case
  proof (cases "start < stop")
    case True
    then have "py_range start stop 1 = start # py_range (start + 1) stop 1"
      by (subst py_range.simps) simp
    also have "py_range (start + 1) stop 1 = [start + 1..stop - 1]"
      using 1 True by simp
    also have "start # [start + 1..stop - 1] = [start..stop - 1]"
      using True by (simp add: upto_rec1)
    finally show ?thesis .
  next
    case False
    then show ?thesis by (subst py_range.simps) simp
  qed
qed

lemma chunks_Nil [simp]: "chunks b [] = []"
  by (subst chunks.simps) simp

lemma chunks_zero [simp]: "chunks 0 xs = []"
  by (subst chunks.simps) simp

lemma chunks_step: "0 < b \<Longrightarrow> xs \<noteq> [] \<Longrightarrow> chunks b xs = take b xs # chunks b (drop b xs)"
  by (subst chunks.simps) simp

lemma concat_chunks: "0 < b \<Longrightarrow> concat (chunks b xs) = xs"
proof (induction b xs rule: chunks.induct)
  case (1 b xs)
  show ?case
  proof (cases "xs = []")
    case True then show ?thesis by simp
  next
    case False
    with 1 show ?thesis by (simp add: chunks_step)
  qed
qed


lemma sum_length_chunks: "0 < b \<Longrightarrow> sum_list (map length (chunks b xs)) = length xs"
proof -
  assume "0 < b"
  then have "length (concat (chunks b xs)) = length xs" by (simp add: concat_chunks)
  then show ?thesis by (simp add: length_concat)
qed


lemma map_length_chunks:
  "0 < b \<Longrightarrow> map length (chunks b xs)
     = replicate (length xs div b) b @ (if length xs mod b = 0 then [] else [length xs mod b])"
proof (induction b xs rule: chunks.induct)
  case (1 b xs)
  show ?case
  proof (cases "xs = []")
    case True then show ?thesis using 1(2) by simp
  next
    case False
    have ih: "map length (chunks b (drop b xs))
      = replicate (length (drop b xs) div b) b
          @ (if length (drop b xs) mod b = 0 then [] else [length (drop b xs) mod b])"
      using 1 False by simp
    have s: "map length (chunks b xs) = min (length xs) b # map length (chunks b (drop b xs))"
      using False 1(2) by (simp add: chunks_step)
    show ?thesis
    proof (cases "length xs < b")
      case True
      then have "drop b xs = []" by simp
      then show ?thesis using s True False by simp
    next
      case ge: False
      then have le: "b \<le> length xs" by simp
      have d: "length xs div b = Suc ((length xs - b) div b)"
        using le 1(2) by (simp add: le_div_geq)
      have m: "length xs mod b = (length xs - b) mod b"
        using le by (simp add: le_mod_geq)
      show ?thesis using s ih d m le by simp
    qed
  qed
qed

lemma slice_take_drop:
  "0 \<le> i \<Longrightarrow> 0 < bs \<Longrightarrow>
     getitem_slice xs (Slice i (Some (i + bs))) = take (nat bs) (drop (nat i) xs)"
proof -
  assume i: "0 \<le> i" and bs: "0 < bs"
  have sum: "nat (i + bs) = nat i + nat bs" using i bs by (simp add: nat_add_distrib)
  have nn: "\<not> i < 0" "\<not> i + bs < 0" using i bs by simp_all
  have eq: "getitem_slice xs (Slice i (Some (i + bs)))
        = take (min (nat i + nat bs) (length xs) - min (nat i) (length xs))
            (drop (min (nat i) (length xs)) xs)"
    using nn sum by (simp add: slice_bound_def Let_def)
  show ?thesis
  proof (cases "nat i \<le> length xs")
    case True
    have "min (nat i + nat bs) (length xs) - nat i = min (nat bs) (length xs - nat i)"
      using True by arith
    moreover have "take (min (nat bs) (length xs - nat i)) (drop (nat i) xs)
        = take (nat bs) (drop (nat i) xs)"
      by (simp add: min_def)
    ultimately show ?thesis using eq True by (simp add: min_absorb1)
  next
    case False
    then show ?thesis using eq by simp
  qed
qed

lemma starts_chunks:
  "0 < s \<Longrightarrow>
     map (\<lambda>i. take (nat s) (drop (nat i) xs)) (py_range (int k) (int (length xs)) s)
       = chunks (nat s) (drop k xs)"
proof (induction "length xs - k" arbitrary: k rule: less_induct)
  case less
  show ?case
  proof (cases "k < length xs")
    case False
    then have "py_range (int k) (int (length xs)) s = []"
      using less.prems by (subst py_range.simps) simp
    then show ?thesis using False by simp
  next
    case True
    have r: "py_range (int k) (int (length xs)) s
             = int k # py_range (int (k + nat s)) (int (length xs)) s"
      using True less.prems by (subst py_range.simps) (simp add: add.commute)
    have "length xs - (k + nat s) < length xs - k" using True less.prems by simp
    then have ih: "map (\<lambda>i. take (nat s) (drop (nat i) xs)) (py_range (int (k + nat s)) (int (length xs)) s)
       = chunks (nat s) (drop (k + nat s) xs)"
      using less.hyps less.prems by blast
    have c: "chunks (nat s) (drop k xs) = take (nat s) (drop k xs) # chunks (nat s) (drop (k + nat s) xs)"
      using True less.prems by (simp add: chunks_step add.commute)
    show ?thesis using r ih c by simp
  qed
qed

lemma py_range_starts_nonneg: "0 < s \<Longrightarrow> 0 \<le> a \<Longrightarrow> i \<in> set (py_range a b s) \<Longrightarrow> 0 \<le> i"
proof (induction a b s rule: py_range.induct)
  case (1 start stop step)
  show ?case
  proof (cases "start < stop")
    case True
    then have "py_range start stop step = start # py_range (start + step) stop step"
      using 1(2) by (subst py_range.simps) simp
    with 1 True show ?thesis by auto
  next
    case False
    then have "py_range start stop step = []" using 1(2) by (subst py_range.simps) simp
    with 1(4) show ?thesis by simp
  qed
qed

section \<open>The shuffles are permutations\<close>

lemma shuffle_steps_mset:
  "k \<le> length x - 1 \<Longrightarrow> mset (fst (shuffle_steps rb k x g)) = mset x"
proof (induction k arbitrary: x g)
  case 0
  show ?case by simp
next
  case (Suc k)
  obtain j g' where r: "randbelow rb g (Suc k + 1) = (j, g')" by (cases "randbelow rb g (Suc k + 1)")
  then have j: "j < Suc k + 1" by (auto simp: randbelow_def)
  have len: "Suc k < length x" using Suc.prems by simp
  let ?x' = "x[Suc k := x ! j, j := x ! Suc k]"
  have "mset ?x' = mset x" using len j by (simp add: mset_swap)
  moreover have "mset (fst (shuffle_steps rb k ?x' g')) = mset ?x'"
    using Suc.IH [of ?x' g'] len by simp
  ultimately show ?case using r by simp
qed

lemma random_shuffle_mset: "mset (fst (random_shuffle rb x g)) = mset x"
  by (simp add: random_shuffle_def shuffle_steps_mset)

section \<open>The batches of the manual loader\<close>

lemma jnp_getitem_in_range:
  "a \<noteq> [] \<Longrightarrow> \<forall>i\<in>set idx. 0 \<le> i \<and> i < int (length a) \<Longrightarrow>
     jnp_getitem a idx = Inr (rows_at a idx)"
proof -
  assume a: "a \<noteq> []" and r: "\<forall>i\<in>set idx. 0 \<le> i \<and> i < int (length a)"
  have "\<And>i. i \<in> set idx \<Longrightarrow> jnp_index (length a) i = nat i"
    using r by (auto simp: jnp_index_def)
  then show ?thesis using a by (simp add: jnp_getitem_def rows_at_def)
qed

lemma jnp_array_in_range:
  "\<forall>i\<in>set idx. 0 \<le> i \<and> i < 2147483648 \<Longrightarrow> jnp_array idx = Inr idx"
  by (auto simp: jnp_array_def list_all_iff)

lemma collect_batches_slices:
  assumes bs: "0 < batch_size self"
    and len: "length (self_y self) = length (self_X self)"
    and idx: "\<forall>i\<in>set indices. 0 \<le> i \<and> i < int (length (self_X self))"
    and small: "int (length (self_X self)) \<le> 2147483648"
  shows "\<forall>i\<in>set starts. 0 \<le> i \<Longrightarrow> (starts \<noteq> [] \<longrightarrow> self_X self \<noteq> []) \<Longrightarrow>
     collect_batches self indices starts
       = Inr (map (\<lambda>i. (rows_at (self_X self) (take (nat (batch_size self)) (drop (nat i) indices)),
                        rows_at (self_y self) (take (nat (batch_size self)) (drop (nat i) indices))))
                starts)"
proof (induction starts)
  case Nil
  show ?case by simp
next
  case (Cons i starts)
  let ?c = "take (nat (batch_size self)) (drop (nat i) indices)"
  have i0: "0 \<le> i" using Cons.prems by simp
  have sl: "getitem_slice indices (Slice i (Some (i + batch_size self))) = ?c"
    using slice_take_drop [OF i0 bs] .
  have X: "self_X self \<noteq> []" using Cons.prems by simp
  then have y: "self_y self \<noteq> []" using len by auto
  have sub: "\<forall>k\<in>set ?c. 0 \<le> k \<and> k < int (length (self_X self))"
    using idx by (meson in_set_dropD in_set_takeD)
  have ja: "jnp_array ?c = Inr ?c"
    using sub small by (intro jnp_array_in_range) force
  have gX: "jnp_getitem (self_X self) ?c = Inr (rows_at (self_X self) ?c)"
    using X sub by (rule jnp_getitem_in_range)
  have gy: "jnp_getitem (self_y self) ?c = Inr (rows_at (self_y self) ?c)"
    using y sub len by (intro jnp_getitem_in_range) simp_all
  have ih: "collect_batches self indices starts
       = Inr (map (\<lambda>i. (rows_at (self_X self) (take (nat (batch_size self)) (drop (nat i) indices)),
                        rows_at (self_y self) (take (nat (batch_size self)) (drop (nat i) indices))))
                starts)"
    using Cons.IH Cons.prems X by simp
  show ?case unfolding collect_batches.simps sl ja sum.case gX gy ih by simp
qed

lemma loader_indices_range:
  assumes "wf_data self" and "loader_indices rb self train g = (indices, g')"
  shows "\<forall>i\<in>set indices. 0 \<le> i \<and> i < int (length (self_X self))"
proof (cases train)
  case True
  then have "mset indices = mset (py_range 0 (num_train self) 1)"
    using assms(2) random_shuffle_mset [of rb "py_range 0 (num_train self) 1" g]
    by (simp add: loader_indices_def)
  then have "set indices = set (py_range 0 (num_train self) 1)" by (rule mset_eq_setD)
  then show ?thesis using assms(1) by (auto simp: py_range_unit wf_data_def)
next
  case False
  then have "indices = py_range (num_train self) (num_train self + num_val self) 1"
    using assms(2) by (simp add: loader_indices_def)
  then show ?thesis using assms(1) by (auto simp: py_range_unit wf_data_def)
qed

lemma get_dataloader_chunks:
  assumes wf: "wf_data self" and bs: "1 \<le> batch_size self"
    and rows: "num_train self + num_val self \<le> 2147483648"
    and li: "loader_indices rb self train g = (indices, g')"
  shows "get_dataloader rb self train g
     = (Inr (map (\<lambda>c. (rows_at (self_X self) c, rows_at (self_y self) c))
               (chunks (nat (batch_size self)) indices)), g')"
proof -
  let ?starts = "py_range 0 (int (length indices)) (batch_size self)"
  have pos: "0 < batch_size self" using bs by simp
  have idx: "\<forall>i\<in>set indices. 0 \<le> i \<and> i < int (length (self_X self))"
    using wf li by (rule loader_indices_range)
  have st: "\<forall>i\<in>set ?starts. 0 \<le> i"
    using py_range_starts_nonneg [OF pos, of 0] by blast
  have ne: "?starts \<noteq> [] \<longrightarrow> self_X self \<noteq> []"
  proof
    assume "?starts \<noteq> []"
    then have "indices \<noteq> []" by (subst (asm) py_range.simps) (auto split: if_splits)
    then obtain i where "i \<in> set indices" by (cases indices) auto
    with idx show "self_X self \<noteq> []" by auto
  qed
  have len: "length (self_y self) = length (self_X self)" using wf by (simp add: wf_data_def)
  have small: "int (length (self_X self)) \<le> 2147483648"
    using wf rows by (simp add: wf_data_def)
  have cb: "collect_batches self indices ?starts
       = Inr (map (\<lambda>i. (rows_at (self_X self) (take (nat (batch_size self)) (drop (nat i) indices)),
                        rows_at (self_y self) (take (nat (batch_size self)) (drop (nat i) indices))))
                ?starts)"
    using collect_batches_slices [OF pos len idx small st ne] .
  have ch: "map (\<lambda>i. take (nat (batch_size self)) (drop (nat i) indices)) ?starts
          = chunks (nat (batch_size self)) indices"
    using starts_chunks [OF pos, of indices 0] by simp
  have "map (\<lambda>i. (rows_at (self_X self) (take (nat (batch_size self)) (drop (nat i) indices)),
                        rows_at (self_y self) (take (nat (batch_size self)) (drop (nat i) indices))))
                ?starts
        = map (\<lambda>c. (rows_at (self_X self) c, rows_at (self_y self) c))
               (chunks (nat (batch_size self)) indices)"
    unfolding ch [symmetric] by (simp add: o_def)
  then show ?thesis using cb li pos by (simp add: get_dataloader_def)
qed

section \<open>The buffered shuffle of the dataset utility\<close>

lemma randbelow_less: "0 < k \<Longrightarrow> fst (randbelow rb g k) < k"
  by (simp add: randbelow_def)

lemma tf_drain_mset: "n = length buf \<Longrightarrow> mset (fst (tf_drain rb n buf g)) = mset buf"
proof (induction n arbitrary: buf g)
  case 0
  then show ?case by simp
next
  case (Suc n)
  obtain j g' where r: "randbelow rb g (length buf) = (j, g')"
    by (cases "randbelow rb g (length buf)")
  have "0 < length buf" using Suc.prems by (cases buf) simp_all
  then have j: "j < length buf" using randbelow_less [of "length buf" rb g] r by simp
  let ?buf' = "take j buf @ drop (Suc j) buf"
  obtain out g'' where d: "tf_drain rb n ?buf' g' = (out, g'')"
    by (cases "tf_drain rb n ?buf' g'")
  have "n = length ?buf'" using j Suc.prems by simp
  then have "mset out = mset ?buf'" using Suc.IH [of ?buf' g'] d by simp
  moreover have "mset buf = add_mset (buf ! j) (mset ?buf')"
    using id_take_nth_drop [OF j] by (metis mset.simps(2) mset_append union_mset_add_mset_right)
  ultimately show ?case using r d by simp
qed

lemma tf_refill_mset:
  "buf \<noteq> [] \<or> rest = [] \<Longrightarrow> mset (fst (tf_refill rb buf rest g)) = mset buf + mset rest"
proof (induction rest arbitrary: buf g)
  case Nil
  show ?case by (simp add: tf_drain_mset)
next
  case (Cons r rest)
  then have ne: "buf \<noteq> []" by simp
  obtain j g' where rb: "randbelow rb g (length buf) = (j, g')"
    by (cases "randbelow rb g (length buf)")
  have j: "j < length buf" using randbelow_less [of "length buf" rb g] rb ne by simp
  obtain out g'' where d: "tf_refill rb (buf[j := r]) rest g' = (out, g'')"
    by (cases "tf_refill rb (buf[j := r]) rest g'")
  have "mset out = mset (buf[j := r]) + mset rest"
    using Cons.IH [of "buf[j := r]" g'] d ne by simp
  moreover have "mset (buf[j := r]) = add_mset r (mset buf - {#buf ! j#})"
    using j by (rule mset_update)
  moreover have "buf ! j \<in># mset buf" using j by simp
  ultimately show ?case using rb d by simp
qed

lemma tf_shuffle_mset: "0 < buffer \<Longrightarrow> mset (fst (tf_shuffle rb buffer xs g)) = mset xs"
proof -
  assume b: "0 < buffer"
  have "take buffer xs \<noteq> [] \<or> drop buffer xs = []" using b by (cases xs) auto
  then have "mset (fst (tf_shuffle rb buffer xs g)) = mset (take buffer xs) + mset (drop buffer xs)"
    unfolding tf_shuffle_def by (rule tf_refill_mset)
  also have "\<dots> = mset xs" by (simp flip: mset_append)
  finally show ?thesis .
qed



section \<open>The constructor\<close>

lemma init_state: "snd (init smp w b noise n_train n_val bsize g) = g"
  by (simp add: init_def Let_def split: prod.splits)

lemma bad_dim_one [simp]: "\<not> bad_dim 1"
  by (simp add: bad_dim_def)

lemma init_error_iff:
  "(\<exists>e. fst (init smp w b noise n_train n_val bsize g) = Inl e)
     \<longleftrightarrow> (shape w = [] \<or> bad_dim (n_train + n_val) \<or> bad_dim (int (hd (shape w)))
          \<or> prod_list (shape w) \<noteq> hd (shape w))"
  by (auto simp: init_def Let_def jax_random_split_def jax_random_normal_def matmul_col_def
      split: list.splits sum.splits if_splits)

lemma init_success:
  assumes sh: "shape w = d # ds" and n: "\<not> bad_dim (n_train + n_val)"
    and fit: "prod_list (shape w) = d" and dd: "\<not> bad_dim (int d)"
  shows "fst (init smp w b noise n_train n_val bsize g) =
     Inr \<lparr> self_w = w, self_b = b, self_noise = noise,
           num_train = n_train, num_val = n_val, batch_size = bsize,
           self_X = map (\<lambda>i. map (\<lambda>j. smp (Split (PRNGKey 0) 0) (nat (n_train + n_val), d) i j) [0..<d])
                      [0..<nat (n_train + n_val)],
           self_y = map (\<lambda>i. [dot (map (\<lambda>j. smp (Split (PRNGKey 0) 0) (nat (n_train + n_val), d) i j) [0..<d])
                                   (elems w) + b
                               + smp (Split (PRNGKey 0) 1) (nat (n_train + n_val), 1) i 0 * noise])
                      [0..<nat (n_train + n_val)] \<rparr>"
proof -
  have "map2 (map2 (\<lambda>v e. v + b + e))
          (map (\<lambda>row. [dot row (elems w)])
             (map (\<lambda>i. map (\<lambda>j. smp (Split (PRNGKey 0) 0) (nat (n_train + n_val), d) i j) [0..<d])
                [0..<nat (n_train + n_val)]))
          (map (map (\<lambda>v. v * noise))
             (map (\<lambda>i. map (\<lambda>j. smp (Split (PRNGKey 0) (Suc 0)) (nat (n_train + n_val), Suc 0) i j) [0..<Suc 0])
                [0..<nat (n_train + n_val)]))
       = map (\<lambda>i. [dot (map (\<lambda>j. smp (Split (PRNGKey 0) 0) (nat (n_train + n_val), d) i j) [0..<d])
                                   (elems w) + b
                               + smp (Split (PRNGKey 0) (Suc 0)) (nat (n_train + n_val), Suc 0) i 0 * noise])
                      [0..<nat (n_train + n_val)]"
    by (rule nth_equalityI) simp_all
  then show ?thesis
    using assms
    by (auto simp add: init_def Let_def jax_random_split_def jax_random_normal_def matmul_col_def)
qed

lemma init_cases:
  assumes "fst (init smp w b noise n_train n_val bsize g) = Inr data"
  shows "shape w \<noteq> [] \<and> 0 \<le> n_train + n_val \<and> prod_list (shape w) = hd (shape w)
       \<and> \<not> bad_dim (n_train + n_val) \<and> \<not> bad_dim (int (hd (shape w)))"
proof -
  have "\<not> (shape w = [] \<or> bad_dim (n_train + n_val) \<or> bad_dim (int (hd (shape w)))
          \<or> prod_list (shape w) \<noteq> hd (shape w))"
    using init_error_iff [of smp w b noise n_train n_val bsize g] assms by auto
  then show ?thesis by (auto simp: bad_dim_def)
qed


lemma init_result:
  assumes ok: "fst (init smp w b noise n_train n_val bsize g) = Inr data"
  shows "data = \<lparr> self_w = w, self_b = b, self_noise = noise,
           num_train = n_train, num_val = n_val, batch_size = bsize,
           self_X = map (\<lambda>i. map (\<lambda>j. smp (Split (PRNGKey 0) 0) (nat (n_train + n_val), hd (shape w)) i j) [0..<hd (shape w)])
                      [0..<nat (n_train + n_val)],
           self_y = map (\<lambda>i. [dot (map (\<lambda>j. smp (Split (PRNGKey 0) 0) (nat (n_train + n_val), hd (shape w)) i j) [0..<hd (shape w)])
                                   (elems w) + b
                               + smp (Split (PRNGKey 0) 1) (nat (n_train + n_val), 1) i 0 * noise])
                      [0..<nat (n_train + n_val)] \<rparr>"
proof -
  have c: "shape w \<noteq> []" "\<not> bad_dim (n_train + n_val)" "prod_list (shape w) = hd (shape w)"
    "\<not> bad_dim (int (hd (shape w)))"
    using init_cases [OF ok] by simp_all
  then obtain d ds where sh: "shape w = d # ds" by (cases "shape w") auto
  then have fit: "prod_list (shape w) = d" and dd: "\<not> bad_dim (int d)" using c(3,4) by simp_all
  from init_success [OF sh c(2) fit dd, of smp b noise bsize g] ok sh show ?thesis by simp
qed

lemma init_wf:
  assumes ok: "fst (init smp w b noise n_train n_val bsize g) = Inr data"
    and "0 \<le> n_train" and "0 \<le> n_val"
  shows "wf_data data"
  using assms(2,3) by (simp add: init_result [OF ok] wf_data_def)

lemma init_any_state:
  "fst (init smp w b noise n_train n_val bsize g) = fst (init smp w b noise n_train n_val bsize g')"
  by (simp add: init_def Let_def case_prod_beta)

section \<open>One pass of the manual loader\<close>

lemma loader_indices_train:
  "loader_indices rb self True g = random_shuffle rb [0..num_train self - 1] g"
  by (simp add: loader_indices_def py_range_unit)

lemma loader_indices_val:
  "loader_indices rb self False g = ([num_train self..num_train self + num_val self - 1], g)"
  by (simp add: loader_indices_def py_range_unit)

lemma batch_sizes_rows:
  "batch_sizes (map (\<lambda>c. (rows_at X c, rows_at y c)) cs) = map length cs"
  by (simp add: batch_sizes_def rows_at_def o_def)

lemma label_sizes_rows:
  "map (\<lambda>xy. length (snd xy)) (map (\<lambda>c. (rows_at X c, rows_at y c)) cs) = map length cs"
  by (simp add: rows_at_def o_def)

lemma random_shuffle_length: "length (fst (random_shuffle rb x g)) = length x"
  using random_shuffle_mset [of rb x g] by (metis size_mset)


lemma manual_pass_total:
  assumes wf: "wf_data self" and bs: "1 \<le> batch_size self"
    and rows: "num_train self + num_val self \<le> 2147483648"
    and li: "loader_indices rb self train g = (idx, g')"
  shows "\<exists>bt. fst (get_dataloader rb self train g) = Inr bt
             \<and> sum_list (batch_sizes bt) = length idx
             \<and> map (\<lambda>xy. length (snd xy)) bt = batch_sizes bt"
proof -
  let ?bt = "map (\<lambda>c. (rows_at (self_X self) c, rows_at (self_y self) c))
               (chunks (nat (batch_size self)) idx)"
  have pos: "0 < nat (batch_size self)" using bs by simp
  have 1: "fst (get_dataloader rb self train g) = Inr ?bt"
    using get_dataloader_chunks [OF wf bs rows li] by simp
  have 2: "sum_list (batch_sizes ?bt) = length idx"
    using pos by (simp only: batch_sizes_rows sum_length_chunks)
  have 3: "map (\<lambda>xy. length (snd xy)) ?bt = batch_sizes ?bt"
    by (simp only: batch_sizes_rows label_sizes_rows)
  from 1 2 3 show ?thesis by blast
qed

section \<open>One pass of the library-backed loader\<close>

lemma length_chunks_split:
  "0 < b \<Longrightarrow> length (chunks b xs) = length xs div b + (if length xs mod b = 0 then 0 else 1)"
proof -
  assume b: "0 < b"
  have "length (chunks b xs) = length (map length (chunks b xs))" by simp
  also have "\<dots> = length (replicate (length xs div b) b
                        @ (if length xs mod b = 0 then [] else [length xs mod b]))"
    using b by (simp only: map_length_chunks)
  also have "\<dots> = length xs div b + (if length xs mod b = 0 then 0 else 1)" by simp
  finally show ?thesis .
qed

lemma ceiling_div_nat:
  "0 < b \<Longrightarrow> \<lceil>real_of_int (int n) / real_of_int (int b)\<rceil>
      = int (n div b + (if n mod b = 0 then 0 else 1))"
proof -
  assume b: "0 < b"
  have "\<lceil>real_of_int (int n) / real_of_int (int b)\<rceil> = - (- int n div int b)"
    by (rule ceiling_divide_eq_div)
  also have "\<dots> = int n div int b + (if int n mod int b = 0 then 0 else 1)"
    using b by (simp add: zdiv_zminus1_eq_if)
  also have "\<dots> = int (n div b + (if n mod b = 0 then 0 else 1))"
  proof (cases "n mod b = 0")
    case True
    then have "int n mod int b = 0" by (simp flip: zmod_int)
    then show ?thesis using True by (simp add: zdiv_int)
  next
    case False
    then have "int n mod int b \<noteq> 0" by (simp flip: zmod_int)
    then show ?thesis using False by (simp add: zdiv_int)
  qed
  finally show ?thesis .
qed

lemma slice_train: "0 \<le> n \<Longrightarrow> getitem_slice a (Slice 0 (Some n)) = take (nat n) a"
  by (simp add: slice_bound_def Let_def min_def)

lemma slice_val: "0 \<le> n \<Longrightarrow> getitem_slice a (Slice n None) = drop (nat n) a"
  by (simp add: slice_bound_def Let_def min_def)

lemma concise_loader:
  assumes wf: "wf_data self" and bs: "1 \<le> batch_size self"
    and bb: "batch_size self < 9223372036854775808"
    and tr: "train \<longrightarrow> 1 \<le> num_train self"
  shows "get_dataloader_concise self train
     = Inr \<lparr> elements = (if train then take (nat (num_train self)) (zip (self_X self) (self_y self))
                          else drop (nat (num_train self)) (zip (self_X self) (self_y self))),
             shuffle_buffer = (if train then nat (num_train self) else 1),
             loader_batch = nat (batch_size self) \<rparr>"
proof -
  have nn: "0 \<le> num_train self" "0 \<le> num_val self"
    and lx: "int (length (self_X self)) = num_train self + num_val self"
    and ly: "length (self_y self) = length (self_X self)"
    using wf by (simp_all add: wf_data_def)
  have le: "nat (num_train self) \<le> length (self_X self)" using nn lx by linarith
  show ?thesis
  proof (cases train)
    case True
    then have "0 < nat (num_train self)" using tr by simp
    then show ?thesis using True nn bs bb le ly
      by (simp add: get_dataloader_concise_def get_tensorloader_def tf_pipeline_def
          slice_train take_zip min_absorb2 Let_def del: getitem_slice.simps)
  next
    case False
    then show ?thesis using nn bs bb ly
      by (simp add: get_dataloader_concise_def get_tensorloader_def tf_pipeline_def
          slice_val drop_zip Let_def del: getitem_slice.simps)
  qed
qed

lemma elements_length:
  assumes wf: "wf_data self"
  shows "length (if train then take (nat (num_train self)) (zip (self_X self) (self_y self))
                 else drop (nat (num_train self)) (zip (self_X self) (self_y self)))
       = nat (if train then num_train self else num_val self)"
proof -
  have nn: "0 \<le> num_train self" "0 \<le> num_val self"
    and lx: "int (length (self_X self)) = num_train self + num_val self"
    and ly: "length (self_y self) = length (self_X self)"
    using wf by (simp_all add: wf_data_def)
  have "length (self_X self) = nat (num_train self) + nat (num_val self)" using nn lx by linarith
  then show ?thesis using ly by simp
qed

lemma tf_shuffle_length:
  "0 < buffer \<Longrightarrow> length (fst (tf_shuffle rb buffer xs g)) = length xs"
  using tf_shuffle_mset [of buffer rb xs g] by (metis size_mset)

lemma loader_iter_sizes:
  assumes "0 < shuffle_buffer l" and "0 < loader_batch l"
  shows "batch_sizes (fst (loader_iter rb l g)) = chunk_sizes (length (elements l)) (loader_batch l)"
    and "length (fst (loader_iter rb l g)) = loader_len l"
proof -
  let ?sh = "fst (tf_shuffle rb (shuffle_buffer l) (elements l) g)"
  have it: "fst (loader_iter rb l g)
      = map (\<lambda>c. (map fst c, map snd c)) (chunks (loader_batch l) ?sh)"
    by (simp add: loader_iter_def case_prod_beta)
  have len: "length ?sh = length (elements l)" using assms(1) by (rule tf_shuffle_length)
  have "batch_sizes (fst (loader_iter rb l g)) = map length (chunks (loader_batch l) ?sh)"
    unfolding it by (simp add: batch_sizes_def o_def)
  then show "batch_sizes (fst (loader_iter rb l g)) = chunk_sizes (length (elements l)) (loader_batch l)"
    using assms(2) len by (simp only: map_length_chunks chunk_sizes_def)
  have "length (fst (loader_iter rb l g)) = length (chunks (loader_batch l) ?sh)"
    unfolding it by simp
  then show "length (fst (loader_iter rb l g)) = loader_len l"
    using assms(2) len by (simp only: length_chunks_split loader_len_def)
qed

lemma loader_indices_length:
  assumes wf: "wf_data self"
  shows "length (fst (loader_indices rb self train g))
       = nat (if train then num_train self else num_val self)"
proof (cases train)
  case True
  have "length (fst (random_shuffle rb [0..num_train self - 1] g)) = length [0..num_train self - 1]"
    by (rule random_shuffle_length)
  then show ?thesis using True by (simp add: loader_indices_train)
next
  case False
  then show ?thesis by (simp add: loader_indices_val)
qed

lemma manual_pass_sizes:
  assumes wf: "wf_data self" and bs: "1 \<le> batch_size self"
    and rows: "num_train self + num_val self \<le> 2147483648"
  shows "\<exists>bt. fst (get_dataloader rb self train g) = Inr bt
           \<and> length bt = nat (if train then num_train self else num_val self) div nat (batch_size self)
                 + (if nat (if train then num_train self else num_val self) mod nat (batch_size self) = 0
                    then 0 else 1)
           \<and> batch_sizes bt
               = chunk_sizes (nat (if train then num_train self else num_val self))
                   (nat (batch_size self))"
proof -
  let ?idx = "fst (loader_indices rb self train g)"
  let ?bt = "map (\<lambda>c. (rows_at (self_X self) c, rows_at (self_y self) c))
               (chunks (nat (batch_size self)) ?idx)"
  have pos: "0 < nat (batch_size self)" using bs by simp
  have li: "loader_indices rb self train g = (?idx, snd (loader_indices rb self train g))" by simp
  have len: "length ?idx = nat (if train then num_train self else num_val self)"
    using wf by (rule loader_indices_length)
  have 1: "fst (get_dataloader rb self train g) = Inr ?bt"
    using get_dataloader_chunks [OF wf bs rows li] by simp
  have 2: "length ?bt = length ?idx div nat (batch_size self)
                 + (if length ?idx mod nat (batch_size self) = 0 then 0 else 1)"
    using pos by (simp add: length_chunks_split)
  have 3: "batch_sizes ?bt = chunk_sizes (length ?idx) (nat (batch_size self))"
    using pos by (simp only: batch_sizes_rows map_length_chunks chunk_sizes_def)
  show ?thesis
    by (intro exI [of _ ?bt] conjI 1 2 [unfolded len] 3 [unfolded len])
qed

section \<open>Features and labels stay paired\<close>

lemma jnp_index_less: "0 < n \<Longrightarrow> jnp_index n i < n"
  by (simp add: jnp_index_def)

lemma nth_pair_in_zip: "k < length xs \<Longrightarrow> length ys = length xs \<Longrightarrow> (xs ! k, ys ! k) \<in> set (zip xs ys)"
  by (metis length_zip min.idem nth_mem nth_zip)

lemma jnp_getitem_paired:
  assumes len: "length ys = length xs"
    and gx: "jnp_getitem xs idx = Inr xb" and gy: "jnp_getitem ys idx = Inr yb"
  shows "list_all2 (\<lambda>xr yr. (xr, yr) \<in> set (zip xs ys)) xb yb"
proof -
  have ne: "xs \<noteq> []" using gx by (auto simp: jnp_getitem_def split: if_splits)
  then have ney: "ys \<noteq> []" using len by auto
  have xb: "xb = map (\<lambda>i. xs ! jnp_index (length xs) i) idx"
    using gx ne by (simp add: jnp_getitem_def)
  have yb: "yb = map (\<lambda>i. ys ! jnp_index (length xs) i) idx"
    using gy ney len by (simp add: jnp_getitem_def)
  have "\<And>i. (xs ! jnp_index (length xs) i, ys ! jnp_index (length xs) i) \<in> set (zip xs ys)"
    using ne len by (intro nth_pair_in_zip jnp_index_less) simp_all
  then show ?thesis unfolding xb yb by (simp add: list_all2_map1 list_all2_map2 list_all2_same)
qed

lemma collect_batches_paired:
  assumes len: "length (self_y self) = length (self_X self)"
  shows "collect_batches self indices starts = Inr bt \<Longrightarrow> \<forall>xy \<in> set bt. paired self xy"
proof (induction starts arbitrary: bt)
  case Nil
  then show ?case by simp
next
  case (Cons i starts)
  let ?c = "getitem_slice indices (Slice i (Some (i + batch_size self)))"
  from Cons.prems obtain c xb yb rest
    where ja: "jnp_array ?c = Inr c"
      and gx: "jnp_getitem (self_X self) c = Inr xb"
      and gy: "jnp_getitem (self_y self) c = Inr yb"
      and r: "collect_batches self indices starts = Inr rest"
      and bt: "bt = (xb, yb) # rest"
    by (auto split: sum.splits simp del: getitem_slice.simps)
  have "paired self (xb, yb)"
    using jnp_getitem_paired [OF len gx gy] by (simp add: paired_def)
  moreover have "\<forall>xy \<in> set rest. paired self xy" using Cons.IH [OF r] .
  ultimately show ?case using bt by simp
qed

lemma get_dataloader_paired:
  assumes len: "length (self_y self) = length (self_X self)"
    and ok: "fst (get_dataloader rb self train g) = Inr bt"
  shows "\<forall>xy \<in> set bt. paired self xy"
proof -
  have "collect_batches self (fst (loader_indices rb self train g))
          (py_range 0 (int (length (fst (loader_indices rb self train g)))) (batch_size self)) = Inr bt"
    using ok by (simp add: get_dataloader_def case_prod_beta split: if_splits)
  then show ?thesis using len by (rule collect_batches_paired [rotated])
qed

lemma chunks_subset: "c \<in> set (chunks b xs) \<Longrightarrow> set c \<subseteq> set xs"
proof (induction b xs rule: chunks.induct)
  case (1 b xs)
  show ?case
  proof (cases "b = 0 \<or> xs = []")
    case True
    with 1(2) show ?thesis by auto
  next
    case False
    then have "c = take b xs \<or> c \<in> set (chunks b (drop b xs))"
      using 1(2) by (simp add: chunks_step)
    then show ?thesis
    proof
      assume "c = take b xs"
      then show ?thesis by (simp add: set_take_subset)
    next
      assume "c \<in> set (chunks b (drop b xs))"
      then have "set c \<subseteq> set (drop b xs)" using 1(1) False by simp
      then show ?thesis using set_drop_subset by fast
    qed
  qed
qed

lemma slices_zip_subset:
  assumes "length ys = length xs"
  shows "zip (getitem_slice xs sl) (getitem_slice ys sl)
       = getitem_slice (zip xs ys) sl"
  using assms by (cases sl) (auto simp: Let_def take_zip drop_zip split: option.splits)

lemma getitem_slice_subset: "set (getitem_slice xs sl) \<subseteq> set xs"
  by (cases sl) (auto simp: Let_def dest: in_set_takeD in_set_dropD)

lemma concise_loader_fields:
  assumes ok: "get_dataloader_concise self train = Inr l"
  shows "elements l = zip (getitem_slice (self_X self)
                            (if train then Slice 0 (Some (num_train self)) else Slice (num_train self) None))
                          (getitem_slice (self_y self)
                            (if train then Slice 0 (Some (num_train self)) else Slice (num_train self) None))"
    and "shuffle_buffer l = (if train then length (elements l) else 1)"
    and "0 < shuffle_buffer l" and "0 < loader_batch l" and "loader_batch l = nat (batch_size self)"
  using ok
  by (auto simp: get_dataloader_concise_def get_tensorloader_def tf_pipeline_def Let_def
      split: if_splits simp del: getitem_slice.simps)

lemma loader_iter_paired:
  assumes sub: "set (elements l) \<subseteq> set (zip (self_X self) (self_y self))"
    and buf: "0 < shuffle_buffer l"
  shows "\<forall>xy \<in> set (fst (loader_iter rb l g)). paired self xy"
proof
  fix xy
  let ?sh = "fst (tf_shuffle rb (shuffle_buffer l) (elements l) g)"
  assume "xy \<in> set (fst (loader_iter rb l g))"
  then obtain c where c: "c \<in> set (chunks (loader_batch l) ?sh)"
    and xy: "xy = (map fst c, map snd c)"
    by (auto simp: loader_iter_def case_prod_beta)
  have "set ?sh = set (elements l)"
    using tf_shuffle_mset [OF buf, of rb "elements l" g] by (rule mset_eq_setD)
  then have "set c \<subseteq> set (zip (self_X self) (self_y self))"
    using chunks_subset [OF c] sub by simp
  then show "paired self xy"
    unfolding xy paired_def
    by (auto simp: list_all2_map1 list_all2_map2 list_all2_same)
qed

section \<open>What the shuffle changes\<close>




















section \<open>A dataset beyond the 32-bit index range\<close>

lemma big_data_fields:
  "num_train big_data = 2147483648" "num_val big_data = 1" "batch_size big_data = 32"
  "length (self_X big_data) = 2147483649" "length (self_y big_data) = 2147483649"
  by (simp_all add: big_data_def)

lemma big_data_wf: "wf_data big_data"
  by (simp add: wf_data_def big_data_fields)

lemma big_data_val_pass:
  "get_dataloader example_rb big_data False (0::nat) = (Inl OverflowError, 0)"
proof -
  have li: "loader_indices example_rb big_data False (0::nat) = ([2147483648], 0)"
    by (simp add: loader_indices_val big_data_fields)
  have st: "py_range 0 1 32 = [0]"
    by (subst py_range.simps, simp, subst py_range.simps, simp)
  show ?thesis
    by (simp add: get_dataloader_def li st big_data_fields slice_bound_def jnp_array_def)
qed

section \<open>The generated dataset\<close>

text \<open>
  Claim C8. Whenever the constructor succeeds, the feature array and the label array
  both have \<open>num_train + num_val\<close> rows, every feature row has \<open>w.shape[0]\<close> entries
  (the length of \<open>w\<close>), and every label row has one entry.
\<close>

theorem init_shapes:
  assumes "fst (init smp w b noise n_train n_val bsize g) = Inr data"
  shows "int (length (self_X data)) = n_train + n_val
       \<and> int (length (self_y data)) = n_train + n_val
       \<and> (\<forall>row \<in> set (self_X data). length row = hd (shape w))
       \<and> (\<forall>row \<in> set (self_y data). length row = 1)
       \<and> num_train data = n_train \<and> num_val data = n_val"
proof -
  have "0 \<le> n_train + n_val" using init_cases [OF assms] by simp
  then show ?thesis by (auto simp: init_result [OF assms])
qed

theorem init_shapes_witness:
  "fst (init example_smp example_w (42 / 10) 0 3 2 2 (0::nat)) = Inr example_data
   \<and> int (length (self_X example_data)) = 3 + 2
   \<and> int (length (self_y example_data)) = 3 + 2
   \<and> map length (self_X example_data) = replicate 5 (hd (shape example_w))"
proof -
  have sh: "shape example_w = 2 # []" by (simp add: example_w_def)
  have h: "fst (init example_smp example_w (42 / 10) 0 3 2 2 (0::nat)) = Inr example_data"
    using init_success [OF sh, of 3 2 example_smp "42 / 10" 0 2 "0::nat"]
    by (simp add: example_w_def example_data_def example_smp_def dot_def upt_rec bad_dim_def)
  have "map length (self_X example_data) = replicate 5 (hd (shape example_w))"
    by (simp add: example_data_def example_w_def numeral_eq_Suc)
  then show ?thesis using init_shapes [OF h] h by simp
qed

text \<open>
  Claim C7. With a noise standard deviation of zero, every label of a successfully
  constructed dataset is exactly the product of its feature row with the weights plus the
  bias: the noise term contributes nothing.
\<close>

theorem init_noise_free:
  assumes "fst (init smp w b 0 n_train n_val bsize g) = Inr data"
  shows "length (self_y data) = length (self_X data)
       \<and> (\<forall>i < length (self_X data). self_y data ! i = [dot (self_X data ! i) (elems w) + b])"
  by (simp add: init_result [OF assms])

theorem init_noise_free_witness:
  "fst (init example_smp example_w (42 / 10) 0 3 2 2 (0::nat)) = Inr example_data
   \<and> self_y example_data ! 1 = [dot (self_X example_data ! 1) (elems example_w) + 42 / 10]
   \<and> self_y example_data ! 1 = [- 4]"
proof -
  have sh: "shape example_w = 2 # []" by (simp add: example_w_def)
  have h: "fst (init example_smp example_w (42 / 10) 0 3 2 2 (0::nat)) = Inr example_data"
    using init_success [OF sh, of 3 2 example_smp "42 / 10" 0 2 "0::nat"]
    by (simp add: example_w_def example_data_def example_smp_def dot_def upt_rec bad_dim_def)
  have "(1::nat) < length (self_X example_data)" by (simp add: example_data_def)
  then have "self_y example_data ! 1 = [dot (self_X example_data ! 1) (elems example_w) + 42 / 10]"
    using init_noise_free [OF h] by blast
  moreover have "self_y example_data ! 1 = [- 4]" by (simp add: example_data_def)
  ultimately show ?thesis using h by simp
qed

section \<open>When construction fails\<close>




section \<open>The random key of the constructor\<close>

text \<open>
  Claim C2, as amended. The constructor has no seed argument: it always draws from the
  fixed key \<open>PRNGKey(0)\<close>, split into one key for the features and one for the noise,
  and it neither reads nor advances the global generator. So two constructions with the
  same arguments give the same result whatever the state of the generator, and the
  features and labels of a constructed dataset are the draws for those two keys.
\<close>

theorem init_fixed_key:
  "snd (init smp w b noise n_train n_val bsize g) = g
   \<and> fst (init smp w b noise n_train n_val bsize g) = fst (init smp w b noise n_train n_val bsize g')
   \<and> (\<forall>data. fst (init smp w b noise n_train n_val bsize g) = Inr data \<longrightarrow>
         jax_random_normal smp (Split (PRNGKey 0) 0) (n_train + n_val, int (hd (shape w)))
           = Inr (self_X data)
         \<and> (\<exists>eps. jax_random_normal smp (Split (PRNGKey 0) 1) (n_train + n_val, 1) = Inr eps
               \<and> self_y data
                   = map2 (\<lambda>row e. [dot row (elems w) + b + hd e * noise]) (self_X data) eps))"
proof (intro conjI allI impI)
  show "snd (init smp w b noise n_train n_val bsize g) = g" by (rule init_state)
  show "fst (init smp w b noise n_train n_val bsize g) = fst (init smp w b noise n_train n_val bsize g')"
    by (rule init_any_state)
next
  fix data
  assume ok: "fst (init smp w b noise n_train n_val bsize g) = Inr data"
  have n: "\<not> bad_dim (n_train + n_val)" "\<not> bad_dim (int (hd (shape w)))"
    using init_cases [OF ok] by simp_all
  show "jax_random_normal smp (Split (PRNGKey 0) 0) (n_train + n_val, int (hd (shape w)))
           = Inr (self_X data)"
    using n by (simp add: init_result [OF ok] jax_random_normal_def)
  let ?eps = "map (\<lambda>i. [smp (Split (PRNGKey 0) 1) (nat (n_train + n_val), 1) i 0]) [0..<nat (n_train + n_val)]"
  have e: "jax_random_normal smp (Split (PRNGKey 0) 1) (n_train + n_val, 1) = Inr ?eps"
    using n by (simp add: jax_random_normal_def)
  have "self_y data = map2 (\<lambda>row e. [dot row (elems w) + b + hd e * noise]) (self_X data) ?eps"
    by (subst (1 2) init_result [OF ok]) (rule nth_equalityI, simp_all)
  with e show "\<exists>eps. jax_random_normal smp (Split (PRNGKey 0) 1) (n_train + n_val, 1) = Inr eps
               \<and> self_y data
                   = map2 (\<lambda>row e. [dot row (elems w) + b + hd e * noise]) (self_X data) eps"
    by blast
qed

theorem init_fixed_key_witness:
  "fst (init example_smp example_w (42 / 10) 0 3 2 2 (0::nat)) = Inr example_data
   \<and> fst (init example_smp example_w (42 / 10) 0 3 2 2 (7::nat)) = Inr example_data
   \<and> snd (init example_smp example_w (42 / 10) 0 3 2 2 (7::nat)) = 7
   \<and> jax_random_normal example_smp (Split (PRNGKey 0) 0) (3 + 2, int (hd (shape example_w)))
        = Inr (self_X example_data)"
proof -
  have sh: "shape example_w = 2 # []" by (simp add: example_w_def)
  have h: "fst (init example_smp example_w (42 / 10) 0 3 2 2 (7::nat)) = Inr example_data"
    using init_success [OF sh, of 3 2 example_smp "42 / 10" 0 2 "7::nat"]
    by (simp add: example_w_def example_data_def example_smp_def dot_def upt_rec bad_dim_def)
  show ?thesis
    using init_fixed_key [of example_smp example_w "42 / 10" 0 3 2 2 "7::nat" "0::nat"] h
    by simp
qed

text \<open>
  The claim as written asks for two constructions with equal arguments whose data differ.
  There is no such pair.
\<close>

theorem init_not_fresh_counterexample:
  "\<not> (\<exists>smp w b noise n_train n_val bsize (g1::nat) (g2::nat).
        fst (init smp w b noise n_train n_val bsize g1)
          \<noteq> fst (init smp w b noise n_train n_val bsize g2))"
proof
  assume "\<exists>smp w b noise n_train n_val bsize (g1::nat) (g2::nat).
        fst (init smp w b noise n_train n_val bsize g1)
          \<noteq> fst (init smp w b noise n_train n_val bsize g2)"
  then obtain smp w b noise n_train n_val bsize and g1 g2 :: nat
    where "fst (init smp w b noise n_train n_val bsize g1)
          \<noteq> fst (init smp w b noise n_train n_val bsize g2)"
    by blast
  then show False using init_any_state [of smp w b noise n_train n_val bsize g1 g2] by simp
qed

section \<open>The batches of one pass\<close>




text \<open>
  Claim C3, as amended. For a dataset as the constructor leaves it, of at most \<open>2^31\<close>
  examples, and a batch size of at least one, a training pass of the manual loader returns
  batches whose sizes add up to \<open>num_train\<close>, and a validation pass batches whose sizes
  add up to \<open>num_val\<close>; every batch has as many label rows as feature rows.
\<close>

theorem manual_loader_total:
  assumes wf: "wf_data self" and bs: "1 \<le> batch_size self"
    and rows: "num_train self + num_val self \<le> 2147483648"
  shows "(\<exists>bt. fst (get_dataloader rb self True g) = Inr bt
             \<and> int (sum_list (batch_sizes bt)) = num_train self
             \<and> map (\<lambda>xy. length (snd xy)) bt = batch_sizes bt)
       \<and> (\<exists>bt. fst (get_dataloader rb self False g) = Inr bt
             \<and> int (sum_list (batch_sizes bt)) = num_val self
             \<and> map (\<lambda>xy. length (snd xy)) bt = batch_sizes bt)"
proof
  have nn: "0 \<le> num_train self" "0 \<le> num_val self" using wf by (simp_all add: wf_data_def)
  let ?perm = "fst (random_shuffle rb [0..num_train self - 1] g)"
  have li: "loader_indices rb self True g
      = (?perm, snd (random_shuffle rb [0..num_train self - 1] g))"
    by (simp add: loader_indices_train)
  have "length ?perm = length [0..num_train self - 1]" by (rule random_shuffle_length)
  also have "\<dots> = nat (num_train self)" by simp
  finally have len: "int (length ?perm) = num_train self" using nn by simp
  obtain bt where t: "fst (get_dataloader rb self True g) = Inr bt
             \<and> sum_list (batch_sizes bt) = length ?perm
             \<and> map (\<lambda>xy. length (snd xy)) bt = batch_sizes bt"
    using manual_pass_total [OF wf bs rows li] ..
  note t1 = t [THEN conjunct1] and t2 = t [THEN conjunct2, THEN conjunct1]
    and t3 = t [THEN conjunct2, THEN conjunct2]
  have t4: "int (sum_list (batch_sizes bt)) = num_train self" using t2 len by simp
  show "\<exists>bt. fst (get_dataloader rb self True g) = Inr bt
             \<and> int (sum_list (batch_sizes bt)) = num_train self
             \<and> map (\<lambda>xy. length (snd xy)) bt = batch_sizes bt"
    by (intro exI [of _ bt] conjI t1 t4 t3)
  have len': "int (length [num_train self..num_train self + num_val self - 1]) = num_val self"
    using nn by simp
  obtain bv where v: "fst (get_dataloader rb self False g) = Inr bv
             \<and> sum_list (batch_sizes bv) = length [num_train self..num_train self + num_val self - 1]
             \<and> map (\<lambda>xy. length (snd xy)) bv = batch_sizes bv"
    using manual_pass_total [OF wf bs rows loader_indices_val] ..
  note v1 = v [THEN conjunct1] and v2 = v [THEN conjunct2, THEN conjunct1]
    and v3 = v [THEN conjunct2, THEN conjunct2]
  have v4: "int (sum_list (batch_sizes bv)) = num_val self" using v2 len' by simp
  show "\<exists>bt. fst (get_dataloader rb self False g) = Inr bt
             \<and> int (sum_list (batch_sizes bt)) = num_val self
             \<and> map (\<lambda>xy. length (snd xy)) bt = batch_sizes bt"
    by (intro exI [of _ bv] conjI v1 v4 v3)
qed

theorem manual_loader_total_witness:
  "wf_data example_data \<and> 1 \<le> batch_size example_data
   \<and> num_train example_data + num_val example_data \<le> 2147483648
   \<and> (\<exists>bt. fst (get_dataloader example_rb example_data True (5::nat)) = Inr bt
          \<and> int (sum_list (batch_sizes bt)) = 3)
   \<and> (\<exists>bt. fst (get_dataloader example_rb example_data False (5::nat)) = Inr bt
          \<and> int (sum_list (batch_sizes bt)) = 2)"
proof -
  have wf: "wf_data example_data" by (simp add: wf_data_def example_data_def)
  have bs: "1 \<le> batch_size example_data" by (simp add: example_data_def)
  have nt: "num_train example_data = 3" and nv: "num_val example_data = 2"
    by (simp_all add: example_data_def)
  have rows: "num_train example_data + num_val example_data \<le> 2147483648"
    by (simp add: nt nv)
  note th = manual_loader_total [OF wf bs rows, of example_rb "5::nat", unfolded nt nv]
  obtain bt where t: "fst (get_dataloader example_rb example_data True (5::nat)) = Inr bt
      \<and> int (sum_list (batch_sizes bt)) = 3
      \<and> map (\<lambda>xy. length (snd xy)) bt = batch_sizes bt"
    using th [THEN conjunct1] ..
  obtain bv where v: "fst (get_dataloader example_rb example_data False (5::nat)) = Inr bv
      \<and> int (sum_list (batch_sizes bv)) = 2
      \<and> map (\<lambda>xy. length (snd xy)) bv = batch_sizes bv"
    using th [THEN conjunct2] ..
  have 1: "\<exists>bt. fst (get_dataloader example_rb example_data True (5::nat)) = Inr bt
          \<and> int (sum_list (batch_sizes bt)) = 3"
    by (intro exI [of _ bt] conjI t [THEN conjunct1] t [THEN conjunct2, THEN conjunct1])
  have 2: "\<exists>bt. fst (get_dataloader example_rb example_data False (5::nat)) = Inr bt
          \<and> int (sum_list (batch_sizes bt)) = 2"
    by (intro exI [of _ bv] conjI v [THEN conjunct1] v [THEN conjunct2, THEN conjunct1])
  show ?thesis by (intro conjI wf bs rows 1 2)
qed

text \<open>
  The claim as written speaks of every split. For \<open>2^31\<close> training examples and one
  validation example the validation pass yields no batch at all: it raises
  \<open>OverflowError\<close> when the index \<open>2^31\<close> is made a 32-bit index array, so no sizes add
  up to \<open>num_val = 1\<close>.
\<close>

theorem manual_loader_total_counterexample:
  "wf_data big_data \<and> 1 \<le> batch_size big_data \<and> num_val big_data = 1
   \<and> fst (get_dataloader example_rb big_data False (0::nat)) = Inl OverflowError"
  by (simp add: big_data_wf big_data_fields big_data_val_pass)

section \<open>The number of batches\<close>

text \<open>
  Claim C4, as amended. For a dataset as the constructor leaves it and a batch size \<open>b\<close>
  of at least one, let \<open>L\<close> be the length of the slice of the mode (\<open>num_train\<close> or
  \<open>num_val\<close>). When \<open>b\<close> is below \<open>2^63\<close> and, in training mode, the slice is not
  empty, the library-backed loader is built, its \<open>len\<close> is \<open>ceil(L / b)\<close>, one pass
  yields that many batches, and their sizes are \<open>b\<close> for the full groups followed by the
  remainder. For a dataset of at most \<open>2^31\<close> examples the manual loader yields the same
  number of batches of the same sizes. In particular 1000 examples in batches of 32 give
  32 batches, the last of size 8, and 10 examples in batches of 4 give batches of sizes
  4, 4, 2.
\<close>

theorem loader_batch_count:
  assumes wf: "wf_data self" and bs: "1 \<le> batch_size self"
  shows "((train \<longrightarrow> 1 \<le> num_train self) \<and> batch_size self < 9223372036854775808 \<longrightarrow>
          (\<exists>l. get_dataloader_concise self train = Inr l
            \<and> int (loader_len l)
                = \<lceil>real_of_int (if train then num_train self else num_val self)
                     / real_of_int (batch_size self)\<rceil>
            \<and> length (fst (loader_iter rb l g)) = loader_len l
            \<and> batch_sizes (fst (loader_iter rb l g))
                = chunk_sizes (nat (if train then num_train self else num_val self))
                    (nat (batch_size self))))
       \<and> (num_train self + num_val self \<le> 2147483648 \<longrightarrow>
          (\<exists>bt. fst (get_dataloader rb' self train g') = Inr bt
            \<and> int (length bt)
                = \<lceil>real_of_int (if train then num_train self else num_val self)
                     / real_of_int (batch_size self)\<rceil>
            \<and> batch_sizes bt
                = chunk_sizes (nat (if train then num_train self else num_val self))
                    (nat (batch_size self))))
       \<and> chunk_sizes 1000 32 = replicate 31 32 @ [8]
       \<and> length (chunk_sizes 1000 32) = 32
       \<and> chunk_sizes 10 4 = [4, 4, 2]"
proof (intro conjI impI)
  let ?L = "if train then num_train self else num_val self"
  let ?l = "\<lparr> elements = (if train then take (nat (num_train self)) (zip (self_X self) (self_y self))
                          else drop (nat (num_train self)) (zip (self_X self) (self_y self))),
             shuffle_buffer = (if train then nat (num_train self) else 1),
             loader_batch = nat (batch_size self) \<rparr>"
  have pos: "0 < nat (batch_size self)" using bs by simp
  have L0: "0 \<le> ?L" using wf by (simp add: wf_data_def)
  have ceil: "\<lceil>real_of_int ?L / real_of_int (batch_size self)\<rceil>
      = int (nat ?L div nat (batch_size self)
             + (if nat ?L mod nat (batch_size self) = 0 then 0 else 1))"
    using ceiling_div_nat [OF pos, of "nat ?L"] L0 bs by simp
  {
    assume a: "(train \<longrightarrow> 1 \<le> num_train self) \<and> batch_size self < 9223372036854775808"
    have tr: "train \<longrightarrow> 1 \<le> num_train self" using a by (rule conjunct1)
    have bb: "batch_size self < 9223372036854775808" using a by (rule conjunct2)
    have 1: "get_dataloader_concise self train = Inr ?l"
      using wf bs bb tr by (rule concise_loader)
    have el: "length (elements ?l) = nat ?L"
      using elements_length [OF wf, of train] by simp
    have buf: "0 < shuffle_buffer ?l" using tr by auto
    have lb: "0 < loader_batch ?l" using pos by simp
    have 2: "int (loader_len ?l) = \<lceil>real_of_int ?L / real_of_int (batch_size self)\<rceil>"
      unfolding ceil loader_len_def el by simp
    have 3: "length (fst (loader_iter rb ?l g)) = loader_len ?l"
      using buf lb by (rule loader_iter_sizes(2))
    have 4: "batch_sizes (fst (loader_iter rb ?l g)) = chunk_sizes (nat ?L) (nat (batch_size self))"
      using loader_iter_sizes(1) [OF buf lb, of rb g] unfolding el by simp
    show "\<exists>l. get_dataloader_concise self train = Inr l
              \<and> int (loader_len l) = \<lceil>real_of_int ?L / real_of_int (batch_size self)\<rceil>
              \<and> length (fst (loader_iter rb l g)) = loader_len l
              \<and> batch_sizes (fst (loader_iter rb l g))
                  = chunk_sizes (nat ?L) (nat (batch_size self))"
      by (intro exI [of _ ?l] conjI 1 2 3 4)
  }
  {
    assume rows: "num_train self + num_val self \<le> 2147483648"
    obtain bt where m: "fst (get_dataloader rb' self train g') = Inr bt
             \<and> length bt = nat ?L div nat (batch_size self)
                   + (if nat ?L mod nat (batch_size self) = 0 then 0 else 1)
             \<and> batch_sizes bt = chunk_sizes (nat ?L) (nat (batch_size self))"
      using manual_pass_sizes [OF wf bs rows, of rb' train g'] ..
    have 5: "int (length bt) = \<lceil>real_of_int ?L / real_of_int (batch_size self)\<rceil>"
      unfolding ceil using m [THEN conjunct2, THEN conjunct1] by simp
    show "\<exists>bt. fst (get_dataloader rb' self train g') = Inr bt
              \<and> int (length bt) = \<lceil>real_of_int ?L / real_of_int (batch_size self)\<rceil>
              \<and> batch_sizes bt = chunk_sizes (nat ?L) (nat (batch_size self))"
      by (intro exI [of _ bt] conjI m [THEN conjunct1] 5 m [THEN conjunct2, THEN conjunct2])
  }
  show "chunk_sizes 1000 32 = replicate 31 32 @ [8]" by (simp add: chunk_sizes_def)
  show "length (chunk_sizes 1000 32) = 32" by (simp add: chunk_sizes_def)
  have "replicate 2 (4::nat) = [4, 4]" by (simp add: numeral_2_eq_2)
  then show "chunk_sizes 10 4 = [4, 4, 2]" by (simp add: chunk_sizes_def)
qed

theorem loader_batch_count_witness:
  "\<exists>data l bt. fst (init example_smp example_w (42 / 10) (1 / 100) 1000 1000 32 (0::nat)) = Inr data
     \<and> wf_data data \<and> 1 \<le> batch_size data \<and> 1 \<le> num_train data
     \<and> batch_size data < 9223372036854775808
     \<and> num_train data + num_val data \<le> 2147483648
     \<and> get_dataloader_concise data True = Inr l
     \<and> loader_len l = 32
     \<and> length (fst (loader_iter example_rb l (0::nat))) = 32
     \<and> batch_sizes (fst (loader_iter example_rb l (0::nat))) = replicate 31 32 @ [8]
     \<and> fst (get_dataloader example_rb data True (0::nat)) = Inr bt
     \<and> length bt = 32
     \<and> batch_sizes bt = replicate 31 32 @ [8]"
proof -
  have sh: "shape example_w = 2 # []" by (simp add: example_w_def)
  have "\<exists>data. fst (init example_smp example_w (42 / 10) (1 / 100) 1000 1000 32 (0::nat)) = Inr data"
    using init_success [OF sh, of 1000 1000 example_smp "42 / 10" "1 / 100" 32 "0::nat"]
    by (simp add: example_w_def bad_dim_def)
  then obtain data
    where h: "fst (init example_smp example_w (42 / 10) (1 / 100) 1000 1000 32 (0::nat)) = Inr data" ..
  have wf: "wf_data data" using h by (rule init_wf) simp_all
  have nt: "num_train data = 1000" and nv: "num_val data = 1000" and b: "batch_size data = 32"
    by (simp_all add: init_result [OF h])
  have bs: "1 \<le> batch_size data" and bb: "batch_size data < 9223372036854775808"
    and rows: "num_train data + num_val data \<le> 2147483648"
    using nt nv b by simp_all
  have tr: "(True \<longrightarrow> 1 \<le> num_train data) \<and> batch_size data < 9223372036854775808"
    using nt b by simp
  note th = loader_batch_count [OF wf bs, of True example_rb "0::nat" example_rb "0::nat"]
  obtain l where l: "get_dataloader_concise data True = Inr l
            \<and> int (loader_len l)
                = \<lceil>real_of_int (if True then num_train data else num_val data)
                     / real_of_int (batch_size data)\<rceil>
            \<and> length (fst (loader_iter example_rb l (0::nat))) = loader_len l
            \<and> batch_sizes (fst (loader_iter example_rb l (0::nat)))
                = chunk_sizes (nat (if True then num_train data else num_val data))
                    (nat (batch_size data))"
    using th [THEN conjunct1, THEN mp, OF tr] ..
  obtain bt where bt: "fst (get_dataloader example_rb data True (0::nat)) = Inr bt
            \<and> int (length bt)
                = \<lceil>real_of_int (if True then num_train data else num_val data)
                     / real_of_int (batch_size data)\<rceil>
            \<and> batch_sizes bt
                = chunk_sizes (nat (if True then num_train data else num_val data))
                    (nat (batch_size data))"
    using th [THEN conjunct2, THEN conjunct1, THEN mp, OF rows] ..
  have cs: "chunk_sizes 1000 32 = replicate 31 32 @ [8]"
    using th [THEN conjunct2, THEN conjunct2, THEN conjunct1] .
  have 1: "get_dataloader_concise data True = Inr l" using l by simp
  have "int (loader_len l) = \<lceil>real_of_int 1000 / real_of_int 32\<rceil>"
    using l [THEN conjunct2, THEN conjunct1] nt b by simp
  then have 2: "loader_len l = 32" by simp
  have 3: "length (fst (loader_iter example_rb l (0::nat))) = 32"
    using l [THEN conjunct2, THEN conjunct2, THEN conjunct1] 2 by simp
  have 4: "batch_sizes (fst (loader_iter example_rb l (0::nat))) = replicate 31 32 @ [8]"
    using l [THEN conjunct2, THEN conjunct2, THEN conjunct2] nt b cs by simp
  have 5: "1 \<le> num_train data" using nt by simp
  have 6: "fst (get_dataloader example_rb data True (0::nat)) = Inr bt"
    using bt by (rule conjunct1)
  have "int (length bt) = \<lceil>real_of_int 1000 / real_of_int 32\<rceil>"
    using bt [THEN conjunct2, THEN conjunct1] nt b by simp
  then have 7: "length bt = 32" by simp
  have 8: "batch_sizes bt = replicate 31 32 @ [8]"
    using bt [THEN conjunct2, THEN conjunct2] nt b cs by simp
  show ?thesis by (intro exI [of _ data] exI [of _ l] exI [of _ bt] conjI h wf bs 5 bb rows 1 2 3 4 6 7 8)
qed

text \<open>
  The claim as written gives every slice a count of \<open>ceil(L / b)\<close> batches that the
  \<open>len\<close> of the library-backed loader returns. For an empty training slice there is no
  loader whose \<open>len\<close> could return \<open>ceil(0 / 2) = 0\<close>: the dataset utility refuses the
  shuffle buffer of size zero that the slice asks for.
\<close>

theorem empty_training_slice_counterexample:
  "wf_data empty_train_data \<and> 1 \<le> batch_size empty_train_data
   \<and> num_train empty_train_data = 0
   \<and> get_dataloader_concise empty_train_data True = Inl InvalidArgumentError"
  by (simp add: wf_data_def get_dataloader_concise_def get_tensorloader_def tf_pipeline_def
      empty_train_data_def slice_bound_def)

section \<open>The pairing of features and labels\<close>

text \<open>
  Claim C10. For a dataset with as many label rows as feature rows, in training and in
  validation mode: in every batch that the manual loader returns, and in every batch of a
  pass over the library-backed loader, the \<open>k\<close>-th feature row and the \<open>k\<close>-th label
  row are the feature row and the label row of one and the same example of the dataset.
\<close>

theorem pairing_preserved:
  assumes len: "length (self_y self) = length (self_X self)"
  shows "(\<forall>bt. fst (get_dataloader rb self train g) = Inr bt
            \<longrightarrow> (\<forall>xy \<in> set bt. paired self xy))
       \<and> (\<forall>l. get_dataloader_concise self train = Inr l
            \<longrightarrow> (\<forall>xy \<in> set (fst (loader_iter rb' l g')). paired self xy))"
proof (intro conjI allI impI)
  fix bt
  assume "fst (get_dataloader rb self train g) = Inr bt"
  with len show "\<forall>xy \<in> set bt. paired self xy" by (rule get_dataloader_paired)
next
  fix l
  assume ok: "get_dataloader_concise self train = Inr l"
  have "set (elements l) \<subseteq> set (zip (self_X self) (self_y self))"
    unfolding concise_loader_fields(1) [OF ok] slices_zip_subset [OF len]
    by (rule getitem_slice_subset)
  then show "\<forall>xy \<in> set (fst (loader_iter rb' l g')). paired self xy"
    using concise_loader_fields(3) [OF ok] by (rule loader_iter_paired)
qed

theorem pairing_preserved_witness:
  "length (self_y example_data) = length (self_X example_data)
   \<and> (\<exists>bt. fst (get_dataloader example_rb example_data True (0::nat)) = Inr bt
          \<and> bt \<noteq> [] \<and> list_all (paired example_data) bt)
   \<and> (\<exists>l. get_dataloader_concise example_data True = Inr l
          \<and> fst (loader_iter example_rb l (0::nat)) \<noteq> []
          \<and> list_all (paired example_data) (fst (loader_iter example_rb l (0::nat))))"
proof -
  have wf: "wf_data example_data" by (simp add: wf_data_def example_data_def)
  have bs: "1 \<le> batch_size example_data" by (simp add: example_data_def)
  have bb: "batch_size example_data < 9223372036854775808" by (simp add: example_data_def)
  have rows: "num_train example_data + num_val example_data \<le> 2147483648"
    by (simp add: example_data_def)
  have tr: "True \<longrightarrow> 1 \<le> num_train example_data" by (simp add: example_data_def)
  have len: "length (self_y example_data) = length (self_X example_data)"
    by (simp add: example_data_def)
  note th = pairing_preserved [OF len, of example_rb True "0::nat" example_rb "0::nat"]
  obtain bt where bt: "fst (get_dataloader example_rb example_data True (0::nat)) = Inr bt
           \<and> length bt = nat (if True then num_train example_data else num_val example_data)
                   div nat (batch_size example_data)
                 + (if nat (if True then num_train example_data else num_val example_data)
                        mod nat (batch_size example_data) = 0
                    then 0 else 1)
           \<and> batch_sizes bt
               = chunk_sizes (nat (if True then num_train example_data else num_val example_data))
                   (nat (batch_size example_data))"
    using manual_pass_sizes [OF wf bs rows, of example_rb True "0::nat"] ..
  have "length bt = 2" using bt [THEN conjunct2, THEN conjunct1] by (simp add: example_data_def)
  then have 1: "bt \<noteq> []" by auto
  have 2: "list_all (paired example_data) bt"
    using th [THEN conjunct1] bt [THEN conjunct1] by (simp add: list_all_iff)
  obtain l where l: "get_dataloader_concise example_data True = Inr l"
    using concise_loader [OF wf bs bb tr] by simp
  have "length (fst (loader_iter example_rb l (0::nat))) = loader_len l"
    using concise_loader_fields(3,4) [OF l] by (rule loader_iter_sizes(2))
  moreover have "loader_len l = 2"
    using l concise_loader [OF wf bs bb tr] by (auto simp: loader_len_def example_data_def)
  ultimately have 3: "fst (loader_iter example_rb l (0::nat)) \<noteq> []" by auto
  have 4: "list_all (paired example_data) (fst (loader_iter example_rb l (0::nat)))"
    using th [THEN conjunct2] l by (simp add: list_all_iff)
  have A: "\<exists>bt. fst (get_dataloader example_rb example_data True (0::nat)) = Inr bt
          \<and> bt \<noteq> [] \<and> list_all (paired example_data) bt"
    by (intro exI [of _ bt] conjI bt [THEN conjunct1] 1 2)
  have B: "\<exists>l. get_dataloader_concise example_data True = Inr l
          \<and> fst (loader_iter example_rb l (0::nat)) \<noteq> []
          \<and> list_all (paired example_data) (fst (loader_iter example_rb l (0::nat)))"
    by (intro exI [of _ l] conjI l 3 4)
  show ?thesis by (intro conjI len A B)
qed

section \<open>Shuffled training, ordered validation\<close>



section \<open>Saving and loading a mapping\<close>

text \<open>
  Claim C9, as amended. For every tensor \<open>t\<close>, every storage and every file name: after
  the mapping \<open>{"x": t}\<close> is saved, loading the file with pickling allowed returns a
  zero-dimensional array of objects whose one element is a mapping with the same key and
  the same tensor. Without pickling allowed the load raises \<open>ValueError\<close>.
\<close>

theorem save_load_mapping:
  "jnp_load (jnp_save fs file (DictV [(''x'', t)])) (npy_name file) True
     = Inr (ObjectArray0 (DictV [(''x'', t)]))
   \<and> jnp_load (jnp_save fs file (DictV [(''x'', t)])) (npy_name file) False
     = Inl ValueError"
  by (simp add: jnp_load_def jnp_save_def np_asanyarray_def)

text \<open>
  The claim as written has the load return a value equal to the original mapping. What
  it returns is not a mapping but the array around it, as the output recorded in the
  notebook shows: \<open>array({'x': ...}, dtype=object)\<close>.
\<close>

theorem load_wraps_mapping_counterexample:
  "jnp_load (jnp_save Map.empty ''mydict.npy'' (DictV [(''x'', Tensor [4] [0, 1, 2, 3])]))
      ''mydict.npy'' True
   \<noteq> Inr (DictV [(''x'', Tensor [4] [0, 1, 2, 3])])"
  by (simp add: jnp_load_def jnp_save_def np_asanyarray_def npy_name_def)

end
